theory Spec2Isabelle
  imports Main "HOL-Library.AList"
begin

section \<open>Quick Paste: the paste lifecycle of \<open>src/main.py\<close>\<close>

text \<open>
  The module keeps a global dict \<open>pastes\<close> (the in-memory index), one file per paste
  under \<open>DATA_DIR/pastes\<close> and a snapshot \<open>DATA_DIR/index.json\<close>. The embedding passes
  this state explicitly. Every \<open>raise\<close> of the source is a value of \<open>error\<close>; the
  retry loop of \<open>generate_id\<close>, which may run forever, is a partial function whose
  value \<open>None\<close> stands for not returning.
\<close>

subsection \<open>Python strings\<close>

text \<open>
  A Python \<open>str\<close> is a sequence of Unicode code points and \<open>len\<close> counts code points,
  so the content of a paste is a list of code points. Identifiers, titles and language
  names are only compared or passed on; they are plain strings.
\<close>

type_synonym pystr = "nat list"

text \<open>\<open>str.isspace\<close> on one code point: the code points Python treats as whitespace.\<close>

definition isspace :: "nat \<Rightarrow> bool" where
  "isspace c \<longleftrightarrow>
     (9 \<le> c \<and> c \<le> 13) \<or> (28 \<le> c \<and> c \<le> 32) \<or> c = 133 \<or> c = 160 \<or> c = 5760 \<or>
     (8192 \<le> c \<and> c \<le> 8202) \<or> c = 8232 \<or> c = 8233 \<or> c = 8239 \<or> c = 8287 \<or> c = 12288"

text \<open>\<open>str.strip()\<close>: whitespace removed from both ends.\<close>

definition strip :: "pystr \<Rightarrow> pystr" where
  "strip cs = rev (dropWhile isspace (rev (dropWhile isspace cs)))"

text \<open>The byte length of the UTF-8 encoding, which is what a size in bytes measures.\<close>

definition utf8_width :: "nat \<Rightarrow> nat" where
  "utf8_width c = (if c < 128 then 1 else if c < 2048 then 2 else if c < 65536 then 3 else 4)"

definition utf8_length :: "pystr \<Rightarrow> nat" where
  "utf8_length cs = sum_list (map utf8_width cs)"

text \<open>
  \<open>Path.write_text\<close> encodes with the locale's encoding, taken to be UTF-8, and the
  strict error handler: a lone surrogate (U+D800 to U+DFFF) has no UTF-8 encoding and
  raises \<open>UnicodeEncodeError\<close>. It opens the file for writing before it encodes, so
  the file exists, empty, when the error is raised.
\<close>

definition encodable :: "pystr \<Rightarrow> bool" where
  "encodable cs \<longleftrightarrow> (\<forall>c \<in> set cs. \<not> (55296 \<le> c \<and> c \<le> 57343))"

text \<open>
  \<open>Path.read_text\<close> opens the file in text mode with \<open>newline=None\<close>: universal
  newlines, so \<open>\r\n\<close> and a lone \<open>\r\<close> are both read as \<open>\n\<close>. (On writing,
  \<open>\n\<close> becomes \<open>os.linesep\<close>, which is \<open>\n\<close> on the POSIX systems the default
  \<open>DATA_DIR\<close> belongs to, so writing keeps the code points as they are.)
\<close>

fun universal_newlines :: "pystr \<Rightarrow> pystr" where
  "universal_newlines [] = []"
| "universal_newlines [c] = [if c = 13 then 10 else c]"
| "universal_newlines (c # d # cs) =
     (if c = 13 then
        (if d = 10 then 10 # universal_newlines cs else 10 # universal_newlines (d # cs))
      else c # universal_newlines (d # cs))"

subsection \<open>Timestamps\<close>

text \<open>
  A \<open>datetime\<close> is the number of microseconds since \<open>datetime.min\<close>; the index stores
  \<open>isoformat()\<close> strings, which \<open>fromisoformat\<close> reads back exactly, so a stored
  timestamp is the number itself. \<open>timedelta\<close> and \<open>datetime + timedelta\<close> raise
  \<open>OverflowError\<close> outside their ranges.
\<close>

datatype error =
    ContentTooLarge       \<comment> \<open>HTTPException 413\<close>
  | EmptyContent          \<comment> \<open>HTTPException 400\<close>
  | PasteNotFound         \<comment> \<open>HTTPException 404, Paste not found\<close>
  | ContentNotFound       \<comment> \<open>HTTPException 404, Paste content not found\<close>
  | OverflowError         \<comment> \<open>raised by the datetime arithmetic\<close>
  | UnicodeEncodeError    \<comment> \<open>raised by write_text\<close>

fun status_code :: "error \<Rightarrow> nat" where
  "status_code ContentTooLarge = 413"
| "status_code EmptyContent = 400"
| "status_code PasteNotFound = 404"
| "status_code ContentNotFound = 404"
| "status_code OverflowError = 500"
| "status_code UnicodeEncodeError = 500"

definition datetime_max :: int where
  "datetime_max = 3652059 * 86400 * 1000000 - 1"

definition timedelta_hours :: "int \<Rightarrow> error + int" where
  "timedelta_hours h =
     (let us = h * 3600000000; days = us div 86400000000
      in if - 999999999 \<le> days \<and> days \<le> 999999999 then Inr us else Inl OverflowError)"

definition datetime_add :: "int \<Rightarrow> int \<Rightarrow> error + int" where
  "datetime_add t d =
     (if 0 \<le> t + d \<and> t + d \<le> datetime_max then Inr (t + d) else Inl OverflowError)"

subsection \<open>Configuration, records and state\<close>

record config =
  MAX_SIZE :: int
  BASE_URL :: string

definition DEFAULT_EXPIRY_HOURS :: int where
  "DEFAULT_EXPIRY_HOURS = 24 * 7"

text \<open>The environment's defaults: \<open>PASTE_MAX_SIZE\<close> 500000, \<open>PASTE_BASE_URL\<close>.\<close>

definition default_config :: config where
  "default_config = \<lparr>MAX_SIZE = 500000, BASE_URL = ''http://localhost:8084''\<rparr>"

text \<open>The metadata dict stored in \<open>pastes\<close> under each id.\<close>

record paste_meta =
  m_title :: "string option"
  m_language :: "string option"
  m_created_at :: int
  m_expires_at :: "int option"
  m_burn_after_read :: bool
  m_size :: nat

text \<open>
  A Python dict keeps insertion order, and \<open>list_pastes\<close> depends on it: the index is
  an association list. \<open>d[k] = v\<close> is \<open>AList.update\<close> (in place for a known key, at the
  end for a new one), \<open>del d[k]\<close> is \<open>AList.delete\<close>, \<open>k in d\<close> is membership of
  the keys.
\<close>

type_synonym index = "(string \<times> paste_meta) list"

definition keys :: "index \<Rightarrow> string set" where
  "keys idx = fst ` set idx"

record state =
  pastes :: index                        \<comment> \<open>the global \<open>pastes\<close>\<close>
  files :: "string \<rightharpoonup> pystr"            \<comment> \<open>\<open>DATA_DIR/pastes/<id>\<close>\<close>
  index_file :: "index option"           \<comment> \<open>\<open>DATA_DIR/index.json\<close>, if it exists\<close>
  index_writes :: nat                    \<comment> \<open>how often \<open>index.json\<close> was written\<close>

text \<open>The request model \<open>PasteCreate\<close>, after pydantic has applied the defaults.\<close>

record PasteCreate =
  content :: pystr
  language :: "string option"
  title :: "string option"
  expires_in_hours :: "int option"
  burn_after_read :: bool

text \<open>
  The defaults of the class: a field missing from the body is \<open>None\<close> here. A missing
  \<open>expires_in_hours\<close> becomes \<open>DEFAULT_EXPIRY_HOURS\<close>, an explicit \<open>null\<close> stays
  \<open>None\<close>; a missing \<open>burn_after_read\<close> is \<open>False\<close>.
\<close>

definition PasteCreate_of ::
  "pystr \<Rightarrow> string option \<Rightarrow> string option \<Rightarrow> int option option \<Rightarrow> bool option \<Rightarrow> PasteCreate" where
  "PasteCreate_of c l t e b =
     \<lparr>content = c, language = l, title = t,
      expires_in_hours = (case e of None \<Rightarrow> Some DEFAULT_EXPIRY_HOURS | Some v \<Rightarrow> v),
      burn_after_read = (case b of None \<Rightarrow> False | Some v \<Rightarrow> v)\<rparr>"

record PasteResponse =
  r_id :: string
  r_url :: string
  r_raw_url :: string
  r_created_at :: int
  r_expires_at :: "int option"
  r_language :: "string option"

subsection \<open>Index and content store\<close>

text \<open>
  \<open>ensure_dirs\<close> creates the two directories if they are missing and is called before
  every write, so a write never fails for a missing directory; directories are not part
  of the state.
\<close>

definition save_index :: "state \<Rightarrow> state" where
  "save_index s = s\<lparr>index_file := Some (pastes s), index_writes := Suc (index_writes s)\<rparr>"

text \<open>
  \<open>save_content\<close> returns the error raised, if any, and the state it leaves: the file
  with the content, or the empty file that a failed \<open>write_text\<close> leaves behind.
\<close>

definition save_content :: "string \<Rightarrow> pystr \<Rightarrow> state \<Rightarrow> error option \<times> state" where
  "save_content paste_id c s =
     (if encodable c then (None, s\<lparr>files := (files s)(paste_id \<mapsto> c)\<rparr>)
      else (Some UnicodeEncodeError, s\<lparr>files := (files s)(paste_id \<mapsto> [])\<rparr>))"

definition load_content :: "state \<Rightarrow> string \<Rightarrow> pystr option" where
  "load_content s paste_id =
     (case files s paste_id of None \<Rightarrow> None | Some bytes \<Rightarrow> Some (universal_newlines bytes))"

text \<open>\<open>del pastes[k]\<close> followed by \<open>unlink(missing_ok=True)\<close> of the content file.\<close>

definition remove_paste :: "string \<Rightarrow> state \<Rightarrow> state" where
  "remove_paste k s = s\<lparr>pastes := AList.delete k (pastes s), files := (files s)(k := None)\<rparr>"

text \<open>
  The test of the sweep, \<open>v.get("expires_at") and fromisoformat(v["expires_at"]) < now\<close>:
  an expiry is stored and it is earlier than \<open>now\<close>.
\<close>

definition is_expired :: "int \<Rightarrow> paste_meta \<Rightarrow> bool" where
  "is_expired now v = (case m_expires_at v of None \<Rightarrow> False | Some e \<Rightarrow> e < now)"

definition load_index :: "int \<Rightarrow> state \<Rightarrow> state" where
  "load_index now s =
     (case index_file s of
        None \<Rightarrow> s
      | Some snapshot \<Rightarrow>
          (let s1 = s\<lparr>pastes := snapshot\<rparr>;
               expired = map fst (filter (\<lambda>(k, v). is_expired now v) (pastes s1));
               s2 = fold remove_paste expired s1
           in if expired \<noteq> [] then save_index s2 else s2))"

text \<open>
  The module starts with \<open>pastes = {}\<close>; \<open>startup\<close> then loads the index the previous
  process left on disk.
\<close>

definition startup :: "int \<Rightarrow> state \<Rightarrow> state" where
  "startup now disk = load_index now (disk\<lparr>pastes := []\<rparr>)"

subsection \<open>Identifier generator\<close>

text \<open>
  \<open>secrets.choice(alphabet)\<close> is \<open>alphabet[randbelow(36)]\<close>. The random source is the
  sequence \<open>rnd\<close> of the numbers drawn, one per call, reduced to the alphabet's range;
  \<open>p\<close> counts the draws made so far. Each round of the loop draws \<open>len\<close> characters;
  \<open>create_paste\<close> calls with the default length 8.
\<close>

definition alphabet :: string where
  "alphabet = ''abcdefghijklmnopqrstuvwxyz0123456789''"

definition secrets_choice :: "(nat \<Rightarrow> nat) \<Rightarrow> nat \<Rightarrow> char" where
  "secrets_choice rnd k = alphabet ! (rnd k mod length alphabet)"

definition candidate :: "(nat \<Rightarrow> nat) \<Rightarrow> nat \<Rightarrow> nat \<Rightarrow> string" where
  "candidate rnd len p = map (\<lambda>j. secrets_choice rnd (p + j)) [0..<len]"

partial_function (option) generate_id :: "(nat \<Rightarrow> nat) \<Rightarrow> index \<Rightarrow> nat \<Rightarrow> nat \<Rightarrow> string option" where
  "generate_id rnd idx len p =
     (let paste_id = candidate rnd len p
      in if paste_id \<notin> keys idx then Some paste_id
         else generate_id rnd idx len (p + len))"

declare generate_id.simps [code]

subsection \<open>Paste service\<close>

text \<open>
  The expiry of \<open>create_paste\<close>: \<open>expires_in_hours\<close> counts when it is truthy (neither
  \<open>None\<close> nor 0) and positive.
\<close>

definition compute_expiry :: "int \<Rightarrow> int option \<Rightarrow> error + int option" where
  "compute_expiry now hours =
     (case hours of
        None \<Rightarrow> Inr None
      | Some h \<Rightarrow>
          if h \<noteq> 0 \<and> h > 0 then
            (case timedelta_hours h of
               Inl e \<Rightarrow> Inl e
             | Inr d \<Rightarrow> (case datetime_add now d of Inl e \<Rightarrow> Inl e | Inr t \<Rightarrow> Inr (Some t)))
          else Inr None)"

definition new_meta :: "int \<Rightarrow> int option \<Rightarrow> PasteCreate \<Rightarrow> paste_meta" where
  "new_meta now expires_at data =
     \<lparr>m_title = title data, m_language = language data, m_created_at = now,
      m_expires_at = expires_at, m_burn_after_read = burn_after_read data,
      m_size = length (content data)\<rparr>"

definition index_put :: "string \<Rightarrow> paste_meta \<Rightarrow> state \<Rightarrow> state" where
  "index_put paste_id meta s = s\<lparr>pastes := AList.update paste_id meta (pastes s)\<rparr>"

definition response :: "config \<Rightarrow> string \<Rightarrow> int \<Rightarrow> int option \<Rightarrow> PasteCreate \<Rightarrow> PasteResponse" where
  "response cfg paste_id now expires_at data =
     \<lparr>r_id = paste_id, r_url = BASE_URL cfg @ ''/'' @ paste_id,
      r_raw_url = BASE_URL cfg @ ''/'' @ paste_id @ ''/raw'',
      r_created_at = now, r_expires_at = expires_at, r_language = language data\<rparr>"

text \<open>
  \<open>create_paste\<close>: the two checks, then the id, the clock, the expiry, the entry in
  \<open>pastes\<close>, the content file and the snapshot, in the order of the source. \<open>rnd\<close> are
  the random draws of this call and \<open>now\<close> is what \<open>datetime.utcnow()\<close> returns. The
  value \<open>None\<close> means that \<open>generate_id\<close> does not return.
\<close>

definition create_paste ::
  "config \<Rightarrow> (nat \<Rightarrow> nat) \<Rightarrow> int \<Rightarrow> PasteCreate \<Rightarrow> state \<Rightarrow> ((error + PasteResponse) \<times> state) option" where
  "create_paste cfg rnd now data s =
     (if int (length (content data)) > MAX_SIZE cfg then Some (Inl ContentTooLarge, s)
      else if strip (content data) = [] then Some (Inl EmptyContent, s)
      else
        (case generate_id rnd (pastes s) 8 0 of
           None \<Rightarrow> None
         | Some paste_id \<Rightarrow>
             (case compute_expiry now (expires_in_hours data) of
                Inl e \<Rightarrow> Some (Inl e, s)
              | Inr expires_at \<Rightarrow>
                  (let s1 = index_put paste_id (new_meta now expires_at data) s
                   in case save_content paste_id (content data) s1 of
                        (Some e, s2) \<Rightarrow> Some (Inl e, s2)
                      | (None, s2) \<Rightarrow>
                          Some (Inr (response cfg paste_id now expires_at data), save_index s2)))))"

text \<open>
  The same function, returning the states it passes through instead of the response: the
  state it starts in, then the state after each effect.
\<close>

definition create_paste_trace ::
  "config \<Rightarrow> (nat \<Rightarrow> nat) \<Rightarrow> int \<Rightarrow> PasteCreate \<Rightarrow> state \<Rightarrow> state list option" where
  "create_paste_trace cfg rnd now data s =
     (if int (length (content data)) > MAX_SIZE cfg then Some [s]
      else if strip (content data) = [] then Some [s]
      else
        (case generate_id rnd (pastes s) 8 0 of
           None \<Rightarrow> None
         | Some paste_id \<Rightarrow>
             (case compute_expiry now (expires_in_hours data) of
                Inl e \<Rightarrow> Some [s]
              | Inr expires_at \<Rightarrow>
                  (let s1 = index_put paste_id (new_meta now expires_at data) s
                   in case save_content paste_id (content data) s1 of
                        (Some e, s2) \<Rightarrow> Some [s, s1, s2]
                      | (None, s2) \<Rightarrow> Some [s, s1, s2, save_index s2]))))"

record paste_summary =
  s_id :: string
  s_url :: string
  s_title :: "string option"
  s_language :: "string option"
  s_size :: nat
  s_created_at :: int
  s_expires_at :: "int option"

text \<open>
  The slice \<open>xs[:limit]\<close>: the first \<open>limit\<close> elements, and for a negative \<open>limit\<close> all
  but the last \<open>-limit\<close>.
\<close>

definition py_slice_to :: "'a list \<Rightarrow> int \<Rightarrow> 'a list" where
  "py_slice_to xs limit =
     (if 0 \<le> limit then take (nat limit) xs else take (length xs - nat (- limit)) xs)"

definition summary :: "config \<Rightarrow> string \<times> paste_meta \<Rightarrow> paste_summary" where
  "summary cfg item =
     (case item of (paste_id, meta) \<Rightarrow>
        \<lparr>s_id = paste_id, s_url = BASE_URL cfg @ ''/'' @ paste_id, s_title = m_title meta,
         s_language = m_language meta, s_size = m_size meta,
         s_created_at = m_created_at meta, s_expires_at = m_expires_at meta\<rparr>)"

text \<open>\<open>list_pastes\<close> returns the summaries and \<open>total\<close>, and the state it leaves.\<close>

definition list_pastes :: "config \<Rightarrow> int \<Rightarrow> state \<Rightarrow> (paste_summary list \<times> nat) \<times> state" where
  "list_pastes cfg limit s =
     ((map (summary cfg) (py_slice_to (pastes s) limit), length (pastes s)), s)"

text \<open>The burn-after-read block shared by both readers.\<close>

definition burn :: "string \<Rightarrow> paste_meta \<Rightarrow> state \<Rightarrow> state" where
  "burn paste_id meta s =
     (if m_burn_after_read meta then save_index (remove_paste paste_id s) else s)"

definition get_paste_raw :: "string \<Rightarrow> state \<Rightarrow> (error + pystr) \<times> state" where
  "get_paste_raw paste_id s =
     (case map_of (pastes s) paste_id of
        None \<Rightarrow> (Inl PasteNotFound, s)
      | Some meta \<Rightarrow>
          (case load_content s paste_id of
             None \<Rightarrow> (Inl ContentNotFound, s)
           | Some c \<Rightarrow> (Inr c, burn paste_id meta s)))"




subsection \<open>States, requests and predicates the properties speak about\<close>

text \<open>A fresh data directory and an empty index.\<close>

definition empty_state :: state where
  "empty_state = \<lparr>pastes = [], files = Map.empty, index_file = None, index_writes = 0\<rparr>"

text \<open>The list \<open>expired\<close> that \<open>load_index\<close> computes from the snapshot it has read.\<close>

definition expired_keys :: "int \<Rightarrow> index \<Rightarrow> string list" where
  "expired_keys now idx = map fst (filter (\<lambda>(k, v). is_expired now v) idx)"




text \<open>
  The snapshot on disk is the index in memory; before the first write there is no
  snapshot and the index is empty.
\<close>

definition snapshot_current :: "state \<Rightarrow> bool" where
  "snapshot_current s \<longleftrightarrow>
     (case index_file s of None \<Rightarrow> pastes s = [] | Some snapshot \<Rightarrow> snapshot = pastes s)"


text \<open>
  The snapshot lists no id that the index does not have. This is weaker than
  \<open>snapshot_current\<close> and also holds after a create that was aborted between its effects.
\<close>

definition snapshot_within_index :: "state \<Rightarrow> bool" where
  "snapshot_within_index s \<longleftrightarrow>
     (case index_file s of None \<Rightarrow> True | Some snapshot \<Rightarrow> keys snapshot \<subseteq> keys (pastes s))"


text \<open>The identifiers \<open>generate_id\<close> can produce: a fixed length over the alphabet.\<close>

definition ids_of_length :: "nat \<Rightarrow> string set" where
  "ids_of_length len = {w. length w = len \<and> set w \<subseteq> set alphabet}"

text \<open>
  A random source is fair from draw \<open>p\<close> on when every identifier comes up in some
  round of the loop. A uniform source is fair with probability one; a deterministic
  model has to say so.
\<close>

definition fair :: "(nat \<Rightarrow> nat) \<Rightarrow> nat \<Rightarrow> nat \<Rightarrow> bool" where
  "fair rnd len p \<longleftrightarrow> (\<forall>w \<in> ids_of_length len. \<exists>k. candidate rnd len (p + k * len) = w)"

text \<open>
  A fair source for identifiers of length 8: round \<open>a\<close> draws the eight base-36 digits
  of \<open>a\<close>, lowest first.
\<close>

definition counting_source :: "nat \<Rightarrow> nat" where
  "counting_source k = (k div 8) div 36 ^ (k mod 8) mod 36"

text \<open>Sample values for concrete runs.\<close>

definition sample_meta :: paste_meta where
  "sample_meta =
     \<lparr>m_title = None, m_language = None, m_created_at = 0, m_expires_at = None,
      m_burn_after_read = False, m_size = 1\<rparr>"

definition sample_request :: "pystr \<Rightarrow> bool \<Rightarrow> PasteCreate" where
  "sample_request c b = PasteCreate_of c None None None (Some b)"

text \<open>
  What a stopped process left on disk: two pastes, the first with an expiry at
  microsecond 5.
\<close>

definition sample_disk :: state where
  "sample_disk =
     \<lparr>pastes = [],
      files = [''aaaaaaaa'' \<mapsto> [104], ''bbbbbbbb'' \<mapsto> [105]],
      index_file = Some [(''aaaaaaaa'', sample_meta\<lparr>m_expires_at := Some 5\<rparr>),
                         (''bbbbbbbb'', sample_meta)],
      index_writes = 0\<rparr>"

section \<open>Lemmas about the building blocks\<close>

lemma strip_empty_iff: "strip cs = [] \<longleftrightarrow> (\<forall>c \<in> set cs. isspace c)"
proof
  assume "strip cs = []"
  then have all: "\<forall>c \<in> set (dropWhile isspace cs). isspace c"
    by (simp add: strip_def)
  have "dropWhile isspace cs = []"
  proof (rule ccontr)
    assume ne: "dropWhile isspace cs \<noteq> []"
    then have "\<not> isspace (hd (dropWhile isspace cs))" by (rule hd_dropWhile)
    moreover from ne have "hd (dropWhile isspace cs) \<in> set (dropWhile isspace cs)" by simp
    ultimately show False using all by blast
  qed
  then show "\<forall>c \<in> set cs. isspace c" by simp
next
  assume "\<forall>c \<in> set cs. isspace c"
  then have d: "dropWhile isspace cs = []" by simp
  show "strip cs = []" unfolding strip_def d by simp
qed

lemma ascii_utf8_length: "\<forall>c \<in> set cs. c < 128 \<Longrightarrow> utf8_length cs = length cs"
  by (induction cs) (simp_all add: utf8_length_def utf8_width_def)

lemma ascii_encodable: "\<forall>c \<in> set cs. c < 128 \<Longrightarrow> encodable cs"
  by (fastforce simp: encodable_def)

lemma compute_expiry_cases:
  "compute_expiry now hours = Inr e \<Longrightarrow>
     e = (case hours of None \<Rightarrow> None | Some h \<Rightarrow> if 0 < h then Some (now + h * 3600000000) else None)"
  by (auto simp: compute_expiry_def timedelta_hours_def datetime_add_def Let_def
      split: option.splits if_splits sum.splits)

lemma compute_expiry_in_range:
  assumes "\<And>h. hours = Some h \<Longrightarrow> 0 < h \<Longrightarrow> 0 \<le> now + h * 3600000000 \<and> now + h * 3600000000 \<le> datetime_max"
    and "0 \<le> now"
  shows "\<exists>e. compute_expiry now hours = Inr e"
proof (cases hours)
  case None
  then show ?thesis by (simp add: compute_expiry_def)
next
  case (Some h)
  show ?thesis
  proof (cases "0 < h")
    case False
    with Some show ?thesis by (simp add: compute_expiry_def)
  next
    case True
    with Some assms(1) have r: "0 \<le> now + h * 3600000000" "now + h * 3600000000 \<le> datetime_max"
      by blast+
    with assms(2) have "h * 3600000000 \<le> datetime_max" by linarith
    then have "h * 3600000000 div 86400000000 \<le> datetime_max div 86400000000"
      by (rule zdiv_mono1) simp
    also have "datetime_max div 86400000000 \<le> 999999999" by (simp add: datetime_max_def)
    finally have up: "h * 3600000000 div 86400000000 \<le> 999999999" .
    from True have "0 \<le> h * 3600000000 div 86400000000" by (simp add: pos_imp_zdiv_nonneg_iff)
    then have lo: "- 999999999 \<le> h * 3600000000 div 86400000000" by linarith
    from up lo have "timedelta_hours h = Inr (h * 3600000000)"
      by (simp add: timedelta_hours_def Let_def)
    with Some True r show ?thesis
      by (simp add: compute_expiry_def datetime_add_def)
  qed
qed

lemma create_paste_Inr:
  "create_paste cfg rnd now data s = Some (Inr resp, s') \<longleftrightarrow>
     \<not> int (length (content data)) > MAX_SIZE cfg \<and> strip (content data) \<noteq> [] \<and>
     (\<exists>paste_id expires_at.
        generate_id rnd (pastes s) 8 0 = Some paste_id \<and>
        compute_expiry now (expires_in_hours data) = Inr expires_at \<and>
        encodable (content data) \<and>
        resp = response cfg paste_id now expires_at data \<and>
        s' = s\<lparr>pastes := AList.update paste_id (new_meta now expires_at data) (pastes s),
               files := (files s)(paste_id \<mapsto> content data),
               index_file := Some (AList.update paste_id (new_meta now expires_at data) (pastes s)),
               index_writes := Suc (index_writes s)\<rparr>)"
  by (auto simp: create_paste_def Let_def index_put_def save_content_def save_index_def
      split: option.splits sum.splits if_splits)

lemma create_paste_large:
  "int (length (content data)) > MAX_SIZE cfg \<Longrightarrow>
     create_paste cfg rnd now data s = Some (Inl ContentTooLarge, s)"
  by (simp add: create_paste_def)

lemma create_paste_Inl_large:
  "create_paste cfg rnd now data s = Some (Inl ContentTooLarge, s') \<longleftrightarrow>
     int (length (content data)) > MAX_SIZE cfg \<and> s' = s"
  by (auto simp: create_paste_def Let_def save_content_def compute_expiry_def
      timedelta_hours_def datetime_add_def
      split: option.splits sum.splits if_splits)

lemma create_paste_Inl_empty:
  "create_paste cfg rnd now data s = Some (Inl EmptyContent, s') \<longleftrightarrow>
     \<not> int (length (content data)) > MAX_SIZE cfg \<and> strip (content data) = [] \<and> s' = s"
  by (auto simp: create_paste_def Let_def save_content_def compute_expiry_def
      timedelta_hours_def datetime_add_def
      split: option.splits sum.splits if_splits)

text \<open>A run of the generator on a source that always draws 0.\<close>

lemma candidate_const0: "candidate (\<lambda>_. 0) 8 0 = ''aaaaaaaa''"
  by (simp add: candidate_def secrets_choice_def alphabet_def upt_rec)

lemma generate_id_first:
  "candidate rnd len p \<notin> keys idx \<Longrightarrow> generate_id rnd idx len p = Some (candidate rnd len p)"
  by (subst generate_id.simps) (simp add: Let_def)

lemma generate_id_const0_empty: "generate_id (\<lambda>_. 0) [] 8 0 = Some ''aaaaaaaa''"
  using generate_id_first [of "\<lambda>_. 0" 8 0 "[]"] by (simp add: keys_def candidate_const0)

section \<open>The checks of \<open>create_paste\<close>\<close>

text \<open>
  Claim C10. When the content both exceeds \<open>MAX_SIZE\<close> (as \<open>create_paste\<close> measures
  it, by \<open>len\<close>) and is empty or all whitespace, the result is \<open>ContentTooLarge\<close> and not
  \<open>EmptyContent\<close>: the size check comes first.
\<close>

theorem size_check_before_emptiness:
  assumes "int (length (content data)) > MAX_SIZE cfg"
    and "strip (content data) = []"
  shows "create_paste cfg rnd now data s = Some (Inl ContentTooLarge, s) \<and>
         create_paste cfg rnd now data s \<noteq> Some (Inl EmptyContent, s)"
  using assms(1) by (simp add: create_paste_def)

theorem size_check_before_emptiness_witness:
  "int (length (content (sample_request (replicate 500001 32) False))) > MAX_SIZE default_config \<and>
   strip (content (sample_request (replicate 500001 32) False)) = [] \<and>
   create_paste default_config (\<lambda>_. 0) 0 (sample_request (replicate 500001 32) False) empty_state
     = Some (Inl ContentTooLarge, empty_state)"
proof -
  let ?d = "sample_request (replicate 500001 32) False"
  have big: "int (length (content ?d)) > MAX_SIZE default_config"
    by (simp add: sample_request_def PasteCreate_of_def default_config_def)
  have ws: "strip (content ?d) = []"
    by (simp add: sample_request_def PasteCreate_of_def strip_def isspace_def)
  from size_check_before_emptiness [OF big ws] big ws show ?thesis by blast
qed

text \<open>
  Claim C3, amended. The claim says \<open>EmptyContent\<close> exactly when the content is empty or
  all whitespace; a whitespace string longer than \<open>MAX_SIZE\<close> is answered with
  \<open>ContentTooLarge\<close> (the counterexample below). What holds, for content made of ASCII
  characters, where the byte length is the number of characters that \<open>len\<close> counts:
  \<open>ContentTooLarge\<close> exactly when the byte length exceeds \<open>MAX_SIZE\<close>; \<open>EmptyContent\<close>
  exactly when it does not and the content is empty or all whitespace; otherwise the
  create succeeds, provided \<open>generate_id\<close> returns and the expiry time is one a
  \<open>datetime\<close> can hold.
\<close>

theorem create_paste_validation:
  assumes ascii: "\<forall>c \<in> set (content data). c < 128"
  shows
    "((\<exists>s'. create_paste cfg rnd now data s = Some (Inl ContentTooLarge, s')) \<longleftrightarrow>
        int (utf8_length (content data)) > MAX_SIZE cfg) \<and>
     ((\<exists>s'. create_paste cfg rnd now data s = Some (Inl EmptyContent, s')) \<longleftrightarrow>
        \<not> int (utf8_length (content data)) > MAX_SIZE cfg \<and>
        (\<forall>c \<in> set (content data). isspace c)) \<and>
     (\<not> int (utf8_length (content data)) > MAX_SIZE cfg \<and>
      \<not> (\<forall>c \<in> set (content data). isspace c) \<and>
      generate_id rnd (pastes s) 8 0 \<noteq> None \<and> 0 \<le> now \<and>
      (\<forall>h. expires_in_hours data = Some h \<and> 0 < h \<longrightarrow> now + h * 3600000000 \<le> datetime_max)
      \<longrightarrow> (\<exists>resp s'. create_paste cfg rnd now data s = Some (Inr resp, s')))"
proof -
  have len: "utf8_length (content data) = length (content data)"
    using ascii by (rule ascii_utf8_length)
  have enc: "encodable (content data)" using ascii by (rule ascii_encodable)
  have large: "(\<exists>s'. create_paste cfg rnd now data s = Some (Inl ContentTooLarge, s')) \<longleftrightarrow>
        int (utf8_length (content data)) > MAX_SIZE cfg"
    by (simp add: create_paste_Inl_large len)
  have empty: "(\<exists>s'. create_paste cfg rnd now data s = Some (Inl EmptyContent, s')) \<longleftrightarrow>
        \<not> int (utf8_length (content data)) > MAX_SIZE cfg \<and>
        (\<forall>c \<in> set (content data). isspace c)"
    by (simp add: create_paste_Inl_empty len strip_empty_iff)
  have ok: "\<exists>resp s'. create_paste cfg rnd now data s = Some (Inr resp, s')"
    if small: "\<not> int (utf8_length (content data)) > MAX_SIZE cfg"
      and nonblank: "\<not> (\<forall>c \<in> set (content data). isspace c)"
      and gen: "generate_id rnd (pastes s) 8 0 \<noteq> None"
      and now: "0 \<le> now"
      and range: "\<forall>h. expires_in_hours data = Some h \<and> 0 < h \<longrightarrow> now + h * 3600000000 \<le> datetime_max"
  proof -
    from gen obtain paste_id where g: "generate_id rnd (pastes s) 8 0 = Some paste_id" by blast
    have "\<exists>e. compute_expiry now (expires_in_hours data) = Inr e"
    proof (rule compute_expiry_in_range [OF _ now])
      fix h assume h: "expires_in_hours data = Some h" "0 < h"
      with range have "now + h * 3600000000 \<le> datetime_max" by blast
      moreover from h(2) now have "0 \<le> now + h * 3600000000" by simp
      ultimately show "0 \<le> now + h * 3600000000 \<and> now + h * 3600000000 \<le> datetime_max" by blast
    qed
    then obtain e where e: "compute_expiry now (expires_in_hours data) = Inr e" by blast
    from small len have s: "\<not> int (length (content data)) > MAX_SIZE cfg" by simp
    from nonblank have t: "strip (content data) \<noteq> []" by (simp add: strip_empty_iff)
    show ?thesis
      unfolding create_paste_Inr using s t g e enc by blast
  qed
  from large empty ok show ?thesis by blast
qed

theorem create_paste_validation_witness:
  "list_all (\<lambda>c. c < (128::nat)) [104, 105] \<and>
   (\<exists>resp s'. create_paste default_config (\<lambda>_. 0) 0 (sample_request [104, 105] False) empty_state
      = Some (Inr resp, s')) \<and>
   \<not> (\<exists>s'. create_paste default_config (\<lambda>_. 0) 0 (sample_request [104, 105] False) empty_state
      = Some (Inl ContentTooLarge, s')) \<and>
   \<not> (\<exists>s'. create_paste default_config (\<lambda>_. 0) 0 (sample_request [104, 105] False) empty_state
      = Some (Inl EmptyContent, s'))"
proof -
  let ?d = "sample_request [104, 105] False"
  have c: "content ?d = [104, 105]" by (simp add: sample_request_def PasteCreate_of_def)
  have ascii: "\<forall>c \<in> set (content ?d). c < 128" by (simp add: c)
  have small: "\<not> int (utf8_length (content ?d)) > MAX_SIZE default_config"
    by (simp add: c utf8_length_def utf8_width_def default_config_def)
  have nonblank: "\<not> (\<forall>c \<in> set (content ?d). isspace c)" by (simp add: c isspace_def)
  have gen: "generate_id (\<lambda>_. 0) (pastes empty_state) 8 0 \<noteq> None"
    by (simp add: empty_state_def generate_id_const0_empty)
  have range: "\<forall>h. expires_in_hours ?d = Some h \<and> 0 < h \<longrightarrow> 0 + h * 3600000000 \<le> datetime_max"
    by (simp add: sample_request_def PasteCreate_of_def DEFAULT_EXPIRY_HOURS_def datetime_max_def)
  from create_paste_validation [OF ascii, of default_config "\<lambda>_. 0" 0 empty_state]
    small nonblank gen range
  show ?thesis by simp
qed

theorem create_paste_validation_counterexample:
  "strip (content (sample_request (replicate 500001 9) False)) = [] \<and>
   create_paste default_config (\<lambda>_. 0) 0 (sample_request (replicate 500001 9) False) empty_state
     = Some (Inl ContentTooLarge, empty_state)"
  by (simp add: sample_request_def PasteCreate_of_def strip_def isspace_def create_paste_def
      default_config_def)

section \<open>What a successful create leaves behind\<close>

lemma create_paste_succeeds:
  assumes "\<not> int (length (content data)) > MAX_SIZE cfg"
    and "strip (content data) \<noteq> []"
    and "encodable (content data)"
    and "generate_id rnd (pastes s) 8 0 \<noteq> None"
    and "0 \<le> now"
    and "\<And>h. expires_in_hours data = Some h \<Longrightarrow> 0 < h \<Longrightarrow> now + h * 3600000000 \<le> datetime_max"
  shows "\<exists>resp s'. create_paste cfg rnd now data s = Some (Inr resp, s')"
proof -
  from assms(4) obtain paste_id where g: "generate_id rnd (pastes s) 8 0 = Some paste_id" by blast
  have "\<exists>e. compute_expiry now (expires_in_hours data) = Inr e"
  proof (rule compute_expiry_in_range [OF _ assms(5)])
    fix h assume h: "expires_in_hours data = Some h" "0 < h"
    then have "now + h * 3600000000 \<le> datetime_max" by (rule assms(6))
    moreover from h(2) assms(5) have "0 \<le> now + h * 3600000000" by simp
    ultimately show "0 \<le> now + h * 3600000000 \<and> now + h * 3600000000 \<le> datetime_max" by blast
  qed
  then obtain e where e: "compute_expiry now (expires_in_hours data) = Inr e" by blast
  show ?thesis
    unfolding create_paste_Inr using assms(1-3) g e by blast
qed

lemma sample_create_succeeds:
  assumes "c \<noteq> []" and "\<not> isspace (hd c)" and "encodable c" and "length c \<le> 500000"
  shows "\<exists>resp s'. create_paste default_config (\<lambda>_. 0) 0 (sample_request c b) empty_state
           = Some (Inr resp, s')"
proof (rule create_paste_succeeds)
  show "\<not> int (length (content (sample_request c b))) > MAX_SIZE default_config"
    using assms(4) by (simp add: sample_request_def PasteCreate_of_def default_config_def)
  from assms(1,2) have "\<not> (\<forall>x \<in> set c. isspace x)" by (cases c) auto
  then show "strip (content (sample_request c b)) \<noteq> []"
    by (simp add: strip_empty_iff sample_request_def PasteCreate_of_def)
  show "encodable (content (sample_request c b))"
    using assms(3) by (simp add: sample_request_def PasteCreate_of_def)
  show "generate_id (\<lambda>_. 0) (pastes empty_state) 8 0 \<noteq> None"
    by (simp add: empty_state_def generate_id_const0_empty)
  show "(0::int) \<le> 0" by simp
  show "0 + h * 3600000000 \<le> datetime_max"
    if "expires_in_hours (sample_request c b) = Some h" for h
    using that
    by (auto simp: sample_request_def PasteCreate_of_def DEFAULT_EXPIRY_HOURS_def datetime_max_def)
qed

text \<open>
  Two runs behind the amendment of claim C3. The size check counts code points: 200000
  euro signs are 600000 bytes of UTF-8, more than \<open>MAX_SIZE\<close>, and are accepted. And a
  create that passes both checks can still fail, in the expiry arithmetic.
\<close>

lemma byte_length_not_checked:
  "int (utf8_length (replicate 200000 8364)) > MAX_SIZE default_config \<and>
   (\<exists>resp s'. create_paste default_config (\<lambda>_. 0) 0
                 (sample_request (replicate 200000 8364) False) empty_state
               = Some (Inr resp, s'))"
proof -
  have "utf8_length (replicate 200000 8364) = 600000"
    by (simp add: utf8_length_def utf8_width_def sum_list_replicate)
  then have "int (utf8_length (replicate 200000 8364)) > MAX_SIZE default_config"
    by (simp add: default_config_def)
  moreover have "\<exists>resp s'. create_paste default_config (\<lambda>_. 0) 0
                 (sample_request (replicate 200000 8364) False) empty_state
               = Some (Inr resp, s')"
    by (rule sample_create_succeeds) (simp_all add: isspace_def encodable_def)
  ultimately show ?thesis by blast
qed

lemma expiry_out_of_range:
  "create_paste default_config (\<lambda>_. 0) 0
     (PasteCreate_of [104, 105] None None (Some (Some 100000000)) None) empty_state
   = Some (Inl OverflowError, empty_state)"
  by (simp add: create_paste_def PasteCreate_of_def default_config_def strip_def isspace_def
      empty_state_def generate_id_const0_empty compute_expiry_def timedelta_hours_def
      datetime_add_def datetime_max_def Let_def)


lemma keys_update: "keys (AList.update k v idx) = insert k (keys idx)"
  by (simp add: keys_def AList.dom_update)


lemma read_after_create:
  assumes "create_paste cfg rnd now data s = Some (Inr resp, s')"
  shows "map_of (pastes s') (r_id resp) = Some (new_meta now (r_expires_at resp) data)"
    and "files s' (r_id resp) = Some (content data)"
    and "load_content s' (r_id resp) = Some (universal_newlines (content data))"
  using assms unfolding create_paste_Inr
  by (auto simp: response_def AList.update_conv' load_content_def)

lemma universal_newlines_no_cr: "13 \<notin> set cs \<Longrightarrow> universal_newlines cs = cs"
  by (induction cs rule: universal_newlines.induct) auto

section \<open>Expiry\<close>

text \<open>
  Claim C9. The record of a created paste has an \<open>expires_at\<close> if and only if
  \<open>expires_in_hours\<close>, after the default of the request class has been applied, is
  positive; then \<open>expires_at\<close> is \<open>created_at\<close> plus that many hours (an hour is
  3600000000 microseconds), and an \<open>expires_at\<close> that is present is strictly after
  \<open>created_at\<close>. The default of a missing field is \<open>DEFAULT_EXPIRY_HOURS\<close>; an explicit
  value, \<open>null\<close> included, is kept.
\<close>

theorem expires_at_after_created_at:
  assumes "create_paste cfg rnd now data s = Some (Inr resp, s')"
  shows "\<exists>meta. map_of (pastes s') (r_id resp) = Some meta \<and>
           m_created_at meta = now \<and> r_created_at resp = now \<and>
           r_expires_at resp = m_expires_at meta \<and>
           (m_expires_at meta \<noteq> None \<longleftrightarrow> (\<exists>h. expires_in_hours data = Some h \<and> 0 < h)) \<and>
           (\<forall>h. expires_in_hours data = Some h \<and> 0 < h \<longrightarrow>
                m_expires_at meta = Some (m_created_at meta + h * 3600000000)) \<and>
           (\<forall>e. m_expires_at meta = Some e \<longrightarrow> m_created_at meta < e) \<and>
           expires_in_hours (PasteCreate_of c l t None b) = Some DEFAULT_EXPIRY_HOURS \<and>
           expires_in_hours (PasteCreate_of c l t (Some v) b) = v"
proof -
  from assms obtain paste_id expires_at where
    e: "compute_expiry now (expires_in_hours data) = Inr expires_at"
    and r: "resp = response cfg paste_id now expires_at data"
    unfolding create_paste_Inr by blast
  let ?meta = "new_meta now (r_expires_at resp) data"
  have m: "map_of (pastes s') (r_id resp) = Some ?meta"
    using assms by (rule read_after_create)
  have x: "r_expires_at resp = expires_at" using r by (simp add: response_def)
  have v: "expires_at =
      (case expires_in_hours data of None \<Rightarrow> None
       | Some h \<Rightarrow> if 0 < h then Some (now + h * 3600000000) else None)"
    using e by (rule compute_expiry_cases)
  have "m_created_at ?meta = now" "r_created_at resp = now" "r_expires_at resp = m_expires_at ?meta"
    using r by (simp_all add: new_meta_def response_def)
  moreover have "m_expires_at ?meta \<noteq> None \<longleftrightarrow> (\<exists>h. expires_in_hours data = Some h \<and> 0 < h)"
    using v x by (auto simp: new_meta_def split: option.splits)
  moreover have "\<forall>h. expires_in_hours data = Some h \<and> 0 < h \<longrightarrow>
                m_expires_at ?meta = Some (m_created_at ?meta + h * 3600000000)"
    using v x by (auto simp: new_meta_def)
  moreover have "\<forall>e. m_expires_at ?meta = Some e \<longrightarrow> m_created_at ?meta < e"
    using v x by (auto simp: new_meta_def split: option.splits if_splits)
  moreover have "expires_in_hours (PasteCreate_of c l t None b) = Some DEFAULT_EXPIRY_HOURS"
    "expires_in_hours (PasteCreate_of c l t (Some v) b) = v"
    by (simp_all add: PasteCreate_of_def)
  ultimately show ?thesis using m by blast
qed

theorem expires_at_after_created_at_witness:
  "\<exists>resp s' meta.
     create_paste default_config (\<lambda>_. 0) 0 (sample_request [104, 105] False) empty_state
       = Some (Inr resp, s') \<and>
     map_of (pastes s') (r_id resp) = Some meta \<and>
     m_created_at meta = 0 \<and> m_expires_at meta = Some (168 * 3600000000)"
proof -
  let ?d = "sample_request [104, 105] False"
  obtain resp s' where
    c: "create_paste default_config (\<lambda>_. 0) 0 ?d empty_state = Some (Inr resp, s')"
    using sample_create_succeeds [of "[104, 105]" False]
    by (auto simp: isspace_def encodable_def)
  have h: "expires_in_hours ?d = Some 168"
    by (simp add: sample_request_def PasteCreate_of_def DEFAULT_EXPIRY_HOURS_def)
  from expires_at_after_created_at [OF c] obtain meta where
    "map_of (pastes s') (r_id resp) = Some meta" "m_created_at meta = 0"
    "\<forall>h. expires_in_hours ?d = Some h \<and> 0 < h \<longrightarrow>
        m_expires_at meta = Some (m_created_at meta + h * 3600000000)"
    by blast
  with h have "map_of (pastes s') (r_id resp) = Some meta \<and> m_created_at meta = 0 \<and>
     m_expires_at meta = Some (168 * 3600000000)" by simp
  with c show ?thesis by blast
qed

section \<open>Burn after read\<close>









section \<open>Fresh identifiers and the order of the index\<close>

lemma generate_id_result:
  assumes "generate_id rnd idx len p = Some paste_id"
  shows "paste_id \<notin> keys idx \<and> (\<exists>k. paste_id = candidate rnd len (p + k * len))"
proof (rule generate_id.raw_induct
    [where P = "\<lambda>r i l q y. y \<notin> keys i \<and> (\<exists>k. y = candidate r l (q + k * l))", OF _ assms])
  fix f r i l q y
  assume IH: "\<And>r i l q y. f r i l q = Some y \<Longrightarrow>
                 y \<notin> keys i \<and> (\<exists>k. y = candidate r l (q + k * l))"
    and body: "(let paste_id = candidate r l q
                in if paste_id \<notin> keys i then Some paste_id else f r i l (q + l)) = Some y"
  show "y \<notin> keys i \<and> (\<exists>k. y = candidate r l (q + k * l))"
  proof (cases "candidate r l q \<in> keys i")
    case True
    with body have "f r i l (q + l) = Some y" by (simp add: Let_def)
    from IH [OF this] obtain k where "y \<notin> keys i" "y = candidate r l (q + l + k * l)" by blast
    then have "y \<notin> keys i \<and> y = candidate r l (q + Suc k * l)" by (simp add: ac_simps)
    then show ?thesis by blast
  next
    case False
    with body have "y \<notin> keys i \<and> y = candidate r l (q + 0 * l)" by (auto simp: Let_def)
    then show ?thesis by blast
  qed
qed

lemma create_paste_fresh_id:
  assumes "create_paste cfg rnd now data s = Some (Inr resp, s')"
  shows "r_id resp \<notin> keys (pastes s)"
    and "map fst (pastes s') = map fst (pastes s) @ [r_id resp]"
proof -
  from assms obtain paste_id expires_at where
    g: "generate_id rnd (pastes s) 8 0 = Some paste_id"
    and r: "resp = response cfg paste_id now expires_at data"
    and s': "pastes s' = AList.update paste_id (new_meta now expires_at data) (pastes s)"
    unfolding create_paste_Inr by auto
  from generate_id_result [OF g] have f: "paste_id \<notin> keys (pastes s)" by blast
  with r show "r_id resp \<notin> keys (pastes s)" by (simp add: response_def)
  from f r s' show "map fst (pastes s') = map fst (pastes s) @ [r_id resp]"
    by (simp add: AList.update_keys keys_def response_def)
qed

section \<open>Round trip of the content\<close>

text \<open>
  Claim C2 says that a raw read after a create returns exactly the submitted content,
  carriage returns included. The code writes with \<open>write_text\<close> and reads with
  \<open>read_text\<close>, whose universal newlines turn \<open>\r\n\<close> and \<open>\r\<close> into \<open>\n\<close>: the
  content \<open>a\r\nb\<close> comes back as \<open>a\nb\<close>. Content without a carriage return does
  come back as submitted (\<open>round_trip_without_cr\<close>).
\<close>

theorem carriage_return_not_preserved:
  "\<exists>resp s1 s2.
     create_paste default_config (\<lambda>_. 0) 0 (sample_request [97, 13, 10, 98] False) empty_state
       = Some (Inr resp, s1) \<and>
     get_paste_raw (r_id resp) s1 = (Inr [97, 10, 98], s2)"
proof -
  let ?d = "sample_request [97, 13, 10, 98] False"
  obtain resp s1 where
    c: "create_paste default_config (\<lambda>_. 0) 0 ?d empty_state = Some (Inr resp, s1)"
    using sample_create_succeeds [of "[97, 13, 10, 98]" False]
    by (auto simp: isspace_def encodable_def)
  have d: "content ?d = [97, 13, 10, 98]" by (simp add: sample_request_def PasteCreate_of_def)
  from read_after_create [OF c] d
  have "\<exists>s2. get_paste_raw (r_id resp) s1 = (Inr [97, 10, 98], s2)"
    by (simp add: get_paste_raw_def)
  with c show ?thesis by blast
qed

lemma round_trip_without_cr:
  assumes "create_paste cfg rnd now data s = Some (Inr resp, s')"
    and "13 \<notin> set (content data)"
  shows "fst (get_paste_raw (r_id resp) s') = Inr (content data)"
  using read_after_create [OF assms(1)] assms(2)
  by (simp add: get_paste_raw_def universal_newlines_no_cr)

section \<open>Listing\<close>

lemma py_slice_to_nonneg: "0 \<le> limit \<Longrightarrow> py_slice_to xs limit = take (nat limit) xs"
  by (simp add: py_slice_to_def)

text \<open>
  Claim C8, amended. The claim speaks of every limit; for a negative limit the slice
  \<open>[:limit]\<close> drops entries from the end and what is left can be more than \<open>limit\<close>
  (the counterexample below). For every limit that is not negative, \<open>list_pastes\<close>
  returns the summaries of the first \<open>limit\<close> entries of the index in the order of the
  index, which is the order of creation since a create appends its id; it returns the
  state unchanged and its result does not depend on the content files.
\<close>

theorem list_pastes_limit:
  assumes "0 \<le> limit"
  shows "list_pastes cfg limit s
           = ((map (summary cfg) (take (nat limit) (pastes s)), length (pastes s)), s) \<and>
         int (length (fst (fst (list_pastes cfg limit s)))) \<le> limit \<and>
         map s_id (fst (fst (list_pastes cfg limit s))) = take (nat limit) (map fst (pastes s)) \<and>
         fst (list_pastes cfg limit (s\<lparr>files := other_files\<rparr>)) = fst (list_pastes cfg limit s) \<and>
         (\<forall>rnd now data resp s'.
            create_paste cfg rnd now data s = Some (Inr resp, s') \<longrightarrow>
            map fst (pastes s') = map fst (pastes s) @ [r_id resp])"
proof -
  have sl: "py_slice_to (pastes s) limit = take (nat limit) (pastes s)"
    using assms by (rule py_slice_to_nonneg)
  have ids: "s_id (summary cfg x) = fst x" for x
    by (cases x) (simp add: summary_def)
  have 1: "list_pastes cfg limit s
           = ((map (summary cfg) (take (nat limit) (pastes s)), length (pastes s)), s)"
    by (simp add: list_pastes_def sl)
  have 2: "int (length (fst (fst (list_pastes cfg limit s)))) \<le> limit"
    using assms by (simp add: 1)
  have 3: "map s_id (fst (fst (list_pastes cfg limit s))) = take (nat limit) (map fst (pastes s))"
    by (simp add: 1 ids take_map comp_def)
  have 4: "fst (list_pastes cfg limit (s\<lparr>files := other_files\<rparr>)) = fst (list_pastes cfg limit s)"
    by (simp add: list_pastes_def)
  have 5: "map fst (pastes s') = map fst (pastes s) @ [r_id resp]"
    if "create_paste cfg rnd now data s = Some (Inr resp, s')" for rnd now data resp s'
    using that by (rule create_paste_fresh_id)
  from 1 2 3 4 5 show ?thesis by blast
qed

theorem list_pastes_limit_witness:
  "(0::int) \<le> 1 \<and>
   map s_id (fst (fst (list_pastes default_config 1
       (empty_state\<lparr>pastes := [(''aaaaaaaa'', sample_meta), (''bbbbbbbb'', sample_meta)]\<rparr>))))
     = [''aaaaaaaa'']"
  using list_pastes_limit [of 1 default_config
      "empty_state\<lparr>pastes := [(''aaaaaaaa'', sample_meta), (''bbbbbbbb'', sample_meta)]\<rparr>"]
  by (simp add: summary_def)

theorem list_pastes_limit_counterexample:
  "\<not> int (length (fst (fst (list_pastes default_config (- 1)
       (empty_state\<lparr>pastes := [(''aaaaaaaa'', sample_meta), (''bbbbbbbb'', sample_meta)]\<rparr>)))))
      \<le> - 1"
  by (simp add: list_pastes_def py_slice_to_def)

section \<open>The identifier generator\<close>

lemma generate_id_returns:
  "candidate rnd len (p + k * len) \<notin> keys idx \<Longrightarrow> \<exists>paste_id. generate_id rnd idx len p = Some paste_id"
proof (induction k arbitrary: p)
  case 0
  then show ?case by (simp add: generate_id_first)
next
  case (Suc k)
  show ?case
  proof (cases "candidate rnd len p \<in> keys idx")
    case False
    then show ?thesis by (simp add: generate_id_first)
  next
    case True
    from Suc.prems have "candidate rnd len ((p + len) + k * len) \<notin> keys idx"
      by (simp add: ac_simps)
    from Suc.IH [OF this] obtain paste_id where "generate_id rnd idx len (p + len) = Some paste_id"
      by blast
    with True show ?thesis by (subst generate_id.simps) (simp add: Let_def)
  qed
qed

lemma length_alphabet: "length alphabet = 36"
  by (simp add: alphabet_def)

lemma secrets_choice_in_alphabet: "secrets_choice rnd k \<in> set alphabet"
  unfolding secrets_choice_def by (rule nth_mem) (simp add: length_alphabet)

lemma candidate_in_ids: "candidate rnd len p \<in> ids_of_length len"
  by (auto simp: ids_of_length_def candidate_def secrets_choice_in_alphabet)

lemma digits_exist:
  fixes b :: nat
  assumes "\<forall>d \<in> set ds. d < b"
  shows "\<exists>a. \<forall>j < length ds. a div b ^ j mod b = ds ! j"
  using assms
proof (induction ds)
  case Nil
  then show ?case by simp
next
  case (Cons d ds)
  then obtain a where a: "\<forall>j < length ds. a div b ^ j mod b = ds ! j" by auto
  from Cons.prems have d: "d < b" by simp
  have "(d + b * a) div b ^ j mod b = (d # ds) ! j" if "j < length (d # ds)" for j
  proof (cases j)
    case 0
    with d show ?thesis by simp
  next
    case (Suc i)
    with that have i: "i < length ds" by simp
    from d have "(d + b * a) div b = a" by simp
    then have "(d + b * a) div b ^ Suc i = a div b ^ i"
      by (simp add: div_mult2_eq)
    with a i Suc show ?thesis by simp
  qed
  then show ?case by blast
qed

lemma counting_source_round:
  "j < 8 \<Longrightarrow> counting_source (a * 8 + j) = a div 36 ^ j mod 36"
  by (simp add: counting_source_def)

lemma candidate_counting_source:
  "candidate counting_source 8 (0 + a * 8) = map (\<lambda>j. alphabet ! (a div 36 ^ j mod 36)) [0..<8]"
  unfolding candidate_def secrets_choice_def
  by (rule map_cong) (simp_all add: counting_source_round length_alphabet)

lemma fair_counting_source: "fair counting_source 8 0"
  unfolding fair_def
proof
  fix w assume "w \<in> ids_of_length 8"
  then have len: "length w = 8" and sub: "set w \<subseteq> set alphabet"
    by (simp_all add: ids_of_length_def)
  have "\<forall>i < 8. \<exists>d. d < 36 \<and> w ! i = alphabet ! d"
  proof (intro allI impI)
    fix i :: nat assume "i < 8"
    with len sub have "w ! i \<in> set alphabet" by (metis nth_mem subsetD)
    then obtain d where "d < length alphabet" "alphabet ! d = w ! i"
      by (auto simp: in_set_conv_nth)
    then show "\<exists>d. d < 36 \<and> w ! i = alphabet ! d" by (auto simp: length_alphabet)
  qed
  then obtain ds where ds: "length ds = 8" "\<forall>i < 8. ds ! i < 36 \<and> w ! i = alphabet ! (ds ! i)"
    unfolding Skolem_list_nth by blast
  then have "\<forall>d \<in> set ds. d < 36" by (auto simp: in_set_conv_nth)
  from digits_exist [OF this] ds(1) obtain a where
    a: "\<forall>j < 8. a div 36 ^ j mod 36 = ds ! j" by auto
  have "candidate counting_source 8 (0 + a * 8) = w"
    unfolding candidate_counting_source
    by (rule nth_equalityI) (use len a ds in auto)
  then show "\<exists>k. candidate counting_source 8 (0 + k * 8) = w" by blast
qed

text \<open>
  Claim C6. Whatever \<open>generate_id\<close> returns is not a key of the index it was called
  with, and is an identifier of the requested length over the alphabet; so the id of a
  successful create is not among the ids live at that moment. The loop returns when
  the index does not hold every identifier of that length, for a random source that is
  fair (every identifier comes up in some round, as it does with probability one for
  uniform draws); when the index holds them all, it never returns.
\<close>

theorem generate_id_unique:
  "(\<forall>paste_id. generate_id rnd idx len p = Some paste_id \<longrightarrow>
       paste_id \<notin> keys idx \<and> paste_id \<in> ids_of_length len) \<and>
   (\<forall>cfg now data s resp s'. create_paste cfg rnd now data s = Some (Inr resp, s') \<longrightarrow>
       r_id resp \<notin> keys (pastes s) \<and> r_id resp \<in> ids_of_length 8) \<and>
   (fair rnd len p \<and> \<not> ids_of_length len \<subseteq> keys idx \<longrightarrow>
       (\<exists>paste_id. generate_id rnd idx len p = Some paste_id)) \<and>
   (ids_of_length len \<subseteq> keys idx \<longrightarrow> generate_id rnd idx len p = None)"
proof -
  have free: "paste_id \<notin> keys i \<and> paste_id \<in> ids_of_length l"
    if "generate_id r i l q = Some paste_id" for r i l q paste_id
    using generate_id_result [OF that] candidate_in_ids by auto
  have made: "r_id resp \<notin> keys (pastes s) \<and> r_id resp \<in> ids_of_length 8"
    if c: "create_paste cfg rnd now data s = Some (Inr resp, s')" for cfg now data s resp s'
  proof -
    from c obtain paste_id expires_at where
      "generate_id rnd (pastes s) 8 0 = Some paste_id"
      "resp = response cfg paste_id now expires_at data"
      unfolding create_paste_Inr by auto
    with free [of rnd "pastes s" 8 0 paste_id] show ?thesis by (simp add: response_def)
  qed
  have returns: "\<exists>paste_id. generate_id rnd idx len p = Some paste_id"
    if f: "fair rnd len p" and room: "\<not> ids_of_length len \<subseteq> keys idx"
  proof -
    from room obtain w where w: "w \<in> ids_of_length len" "w \<notin> keys idx" by blast
    with f obtain k where "candidate rnd len (p + k * len) = w" unfolding fair_def by blast
    with w(2) have "candidate rnd len (p + k * len) \<notin> keys idx" by simp
    then show ?thesis by (rule generate_id_returns)
  qed
  have full: "generate_id rnd idx len p = None" if "ids_of_length len \<subseteq> keys idx"
  proof (cases "generate_id rnd idx len p")
    case None
    then show ?thesis .
  next
    case (Some paste_id)
    from free [OF this] that show ?thesis by blast
  qed
  from free made returns full show ?thesis by blast
qed

lemma sample_index_has_room: "\<not> ids_of_length 8 \<subseteq> keys [(''aaaaaaaa'', sample_meta)]"
proof -
  have "''bbbbbbbb'' \<in> ids_of_length 8" by (simp add: ids_of_length_def alphabet_def)
  moreover have "''bbbbbbbb'' \<notin> keys [(''aaaaaaaa'', sample_meta)]" by (simp add: keys_def)
  ultimately show ?thesis by blast
qed

lemma counting_second: "generate_id counting_source [(''aaaaaaaa'', sample_meta)] 8 0 = Some ''baaaaaaa''"
proof -
  have 0: "candidate counting_source 8 0 = ''aaaaaaaa''"
    using candidate_counting_source [of 0] by (simp add: alphabet_def upt_rec)
  have 1: "candidate counting_source 8 8 = ''baaaaaaa''"
    using candidate_counting_source [of 1] by (simp add: alphabet_def upt_rec)
  have "generate_id counting_source [(''aaaaaaaa'', sample_meta)] 8 8 = Some ''baaaaaaa''"
    using generate_id_first [of counting_source 8 8 "[(''aaaaaaaa'', sample_meta)]"]
    by (simp add: 1 keys_def)
  then show ?thesis
    by (subst generate_id.simps) (simp add: 0 keys_def Let_def)
qed

theorem generate_id_unique_witness:
  "fair counting_source 8 0 \<and>
   \<not> ids_of_length 8 \<subseteq> keys [(''aaaaaaaa'', sample_meta)] \<and>
   generate_id counting_source [(''aaaaaaaa'', sample_meta)] 8 0 = Some ''baaaaaaa'' \<and>
   ''baaaaaaa'' \<notin> keys [(''aaaaaaaa'', sample_meta)] \<and>
   ''baaaaaaa'' \<in> ids_of_length 8"
  using generate_id_unique [of counting_source "[(''aaaaaaaa'', sample_meta)]" 8 0]
    fair_counting_source sample_index_has_room counting_second
  by simp

section \<open>The load sweep\<close>

lemma remove_paste_fields:
  "pastes (remove_paste k s) = filter (\<lambda>kv. fst kv \<noteq> k) (pastes s)"
  "files (remove_paste k s) = (files s)(k := None)"
  "index_file (remove_paste k s) = index_file s"
  "index_writes (remove_paste k s) = index_writes s"
  by (simp_all add: remove_paste_def AList.delete_eq split_def eq_commute)

lemma fold_remove_paste:
  "pastes (fold remove_paste ks s) = filter (\<lambda>kv. fst kv \<notin> set ks) (pastes s)"
  "files (fold remove_paste ks s) k = (if k \<in> set ks then None else files s k)"
  "index_file (fold remove_paste ks s) = index_file s"
  "index_writes (fold remove_paste ks s) = index_writes s"
proof (induction ks arbitrary: s)
  case Nil
  {
    case 1 show ?case by simp
  next
    case 2 show ?case by simp
  next
    case 3 show ?case by simp
  next
    case 4 show ?case by simp
  }
next
  case (Cons k ks)
  {
    case 1 show ?case
      by (simp add: Cons.IH remove_paste_fields conj_commute)
  next
    case 2 show ?case
      by (simp add: Cons.IH remove_paste_fields)
  next
    case 3 show ?case by (simp add: Cons.IH remove_paste_fields)
  next
    case 4 show ?case by (simp add: Cons.IH remove_paste_fields)
  }
qed

lemma filter_expired_keys:
  assumes "distinct (map fst xs)"
  shows "filter (\<lambda>kv. fst kv \<notin> set (map fst (filter P xs))) xs = filter (\<lambda>kv. \<not> P kv) xs"
proof (rule filter_cong [OF refl])
  fix kv assume kv: "kv \<in> set xs"
  from assms have inj: "inj_on fst (set xs)" by (simp add: distinct_map)
  show "(fst kv \<notin> set (map fst (filter P xs))) = (\<not> P kv)"
  proof
    assume "fst kv \<notin> set (map fst (filter P xs))"
    with kv show "\<not> P kv" by force
  next
    assume n: "\<not> P kv"
    show "fst kv \<notin> set (map fst (filter P xs))"
    proof
      assume "fst kv \<in> set (map fst (filter P xs))"
      then obtain x where x: "x \<in> set xs" "P x" "fst x = fst kv" by auto
      with inj kv have "x = kv" by (auto dest: inj_onD)
      with x n show False by simp
    qed
  qed
qed

lemma load_index_unfold:
  assumes "index_file s = Some snapshot"
  shows "load_index now s =
           (if expired_keys now snapshot \<noteq> []
            then save_index (fold remove_paste (expired_keys now snapshot) (s\<lparr>pastes := snapshot\<rparr>))
            else fold remove_paste (expired_keys now snapshot) (s\<lparr>pastes := snapshot\<rparr>))"
  using assms by (simp add: load_index_def Let_def expired_keys_def)

lemma load_index_Some:
  assumes "index_file s = Some snapshot"
  shows "pastes (load_index now s)
           = filter (\<lambda>kv. fst kv \<notin> set (expired_keys now snapshot)) snapshot"
    and "files (load_index now s) k
           = (if k \<in> set (expired_keys now snapshot) then None else files s k)"
    and "expired_keys now snapshot \<noteq> [] \<Longrightarrow>
           index_file (load_index now s) = Some (pastes (load_index now s)) \<and>
           index_writes (load_index now s) = Suc (index_writes s)"
    and "expired_keys now snapshot = [] \<Longrightarrow>
           index_file (load_index now s) = Some snapshot \<and>
           index_writes (load_index now s) = index_writes s"
proof -
  note u = load_index_unfold [OF assms, of now]
  show "pastes (load_index now s)
           = filter (\<lambda>kv. fst kv \<notin> set (expired_keys now snapshot)) snapshot"
    unfolding u by (simp add: save_index_def fold_remove_paste)
  show "files (load_index now s) k
           = (if k \<in> set (expired_keys now snapshot) then None else files s k)"
    unfolding u by (simp add: save_index_def fold_remove_paste)
  show "index_file (load_index now s) = Some (pastes (load_index now s)) \<and>
           index_writes (load_index now s) = Suc (index_writes s)"
    if "expired_keys now snapshot \<noteq> []"
    unfolding u using that by (simp add: save_index_def fold_remove_paste)
  show "index_file (load_index now s) = Some snapshot \<and>
           index_writes (load_index now s) = index_writes s"
    if "expired_keys now snapshot = []"
    unfolding u using that assms by (simp add: fold_remove_paste)
qed

lemma unexpired_after_sweep:
  assumes "kv \<in> set (filter (\<lambda>kv. fst kv \<notin> set (expired_keys now idx)) idx)"
  shows "\<not> is_expired now (snd kv)"
proof
  assume "is_expired now (snd kv)"
  moreover from assms have "kv \<in> set idx" by simp
  ultimately have "fst kv \<in> set (expired_keys now idx)"
    by (force simp: expired_keys_def)
  with assms show False by simp
qed

lemma is_expired_iff: "is_expired now v \<longleftrightarrow> (\<exists>e. m_expires_at v = Some e \<and> e < now)"
  by (simp add: is_expired_def split: option.splits)

lemma set_expired_keys:
  "set (expired_keys now idx) = {k. \<exists>v. (k, v) \<in> set idx \<and> is_expired now v}"
  by (force simp: expired_keys_def)

text \<open>
  Claim C7. Without a snapshot \<open>load_index\<close> changes nothing. With one (a JSON object,
  so its keys are distinct) the index becomes the snapshot without exactly the records
  that are expired, that is, whose \<open>expires_at\<close> is present and earlier than \<open>now\<close>; the
  content files of exactly the removed ids are deleted; the snapshot is written again
  (once, with the cleaned index) if a record was removed and not written otherwise; and
  no record left in the index has an \<open>expires_at\<close> earlier than \<open>now\<close>. The same holds for
  the index after \<open>startup\<close>, which begins with the empty \<open>pastes\<close> of a new process.
\<close>

theorem load_index_sweep:
  "(index_file s = None \<longrightarrow> load_index now s = s) \<and>
   (\<forall>snapshot. index_file s = Some snapshot \<and> distinct (map fst snapshot) \<longrightarrow>
      pastes (load_index now s) = filter (\<lambda>(k, v). \<not> is_expired now v) snapshot \<and>
      (\<forall>k. files (load_index now s) k
            = (if k \<in> set (expired_keys now snapshot) then None else files s k)) \<and>
      (expired_keys now snapshot \<noteq> [] \<longrightarrow>
         index_file (load_index now s) = Some (pastes (load_index now s)) \<and>
         index_writes (load_index now s) = Suc (index_writes s)) \<and>
      (expired_keys now snapshot = [] \<longrightarrow>
         index_file (load_index now s) = index_file s \<and>
         index_writes (load_index now s) = index_writes s) \<and>
      (\<forall>(k, v) \<in> set (pastes (load_index now s)). \<forall>e. m_expires_at v = Some e \<longrightarrow> now \<le> e)) \<and>
   (\<forall>(k, v) \<in> set (pastes (startup now disk)). \<forall>e. m_expires_at v = Some e \<longrightarrow> now \<le> e) \<and>
   (\<forall>v. is_expired now v \<longleftrightarrow> (\<exists>e. m_expires_at v = Some e \<and> e < now)) \<and>
   set (expired_keys now idx) = {k. \<exists>v. (k, v) \<in> set idx \<and> is_expired now v}"
proof -
  have absent: "load_index now s = s" if "index_file s = None"
    using that by (simp add: load_index_def)
  have kept: "\<forall>(k, v) \<in> set (pastes (load_index now t)). \<forall>e. m_expires_at v = Some e \<longrightarrow> now \<le> e"
    if "index_file t = Some snapshot" for t snapshot
  proof (intro ballI, clarify)
    fix k v e
    assume "(k, v) \<in> set (pastes (load_index now t))" "m_expires_at v = Some e"
    with unexpired_after_sweep [of "(k, v)" now snapshot] load_index_Some(1) [OF that, of now]
    show "now \<le> e" by (simp add: is_expired_iff)
  qed
  have present:
    "pastes (load_index now s) = filter (\<lambda>(k, v). \<not> is_expired now v) snapshot \<and>
      (\<forall>k. files (load_index now s) k
            = (if k \<in> set (expired_keys now snapshot) then None else files s k)) \<and>
      (expired_keys now snapshot \<noteq> [] \<longrightarrow>
         index_file (load_index now s) = Some (pastes (load_index now s)) \<and>
         index_writes (load_index now s) = Suc (index_writes s)) \<and>
      (expired_keys now snapshot = [] \<longrightarrow>
         index_file (load_index now s) = index_file s \<and>
         index_writes (load_index now s) = index_writes s) \<and>
      (\<forall>(k, v) \<in> set (pastes (load_index now s)). \<forall>e. m_expires_at v = Some e \<longrightarrow> now \<le> e)"
    if snap: "index_file s = Some snapshot" and d: "distinct (map fst snapshot)" for snapshot
  proof -
    have "pastes (load_index now s)
            = filter (\<lambda>kv. fst kv \<notin> set (expired_keys now snapshot)) snapshot"
      using snap by (rule load_index_Some)
    also have "\<dots> = filter (\<lambda>kv. \<not> (case kv of (k, v) \<Rightarrow> is_expired now v)) snapshot"
      unfolding expired_keys_def using d by (rule filter_expired_keys)
    also have "\<dots> = filter (\<lambda>(k, v). \<not> is_expired now v) snapshot"
      by (simp add: split_def)
    finally have 1: "pastes (load_index now s) = filter (\<lambda>(k, v). \<not> is_expired now v) snapshot" .
    from load_index_Some(2-4) [OF snap, of now] snap kept [OF snap] 1
    show ?thesis by simp
  qed
  have boot: "\<forall>(k, v) \<in> set (pastes (startup now disk)). \<forall>e. m_expires_at v = Some e \<longrightarrow> now \<le> e"
  proof (cases "index_file disk")
    case None
    then show ?thesis by (simp add: startup_def load_index_def)
  next
    case (Some snapshot)
    then have "index_file (disk\<lparr>pastes := []\<rparr>) = Some snapshot" by simp
    from kept [OF this] show ?thesis by (simp add: startup_def)
  qed
  from absent present boot is_expired_iff set_expired_keys show ?thesis by blast
qed

theorem load_index_sweep_witness:
  "distinct (map fst (the (index_file sample_disk))) \<and>
   pastes (load_index 10 sample_disk) = [(''bbbbbbbb'', sample_meta)] \<and>
   files (load_index 10 sample_disk) ''aaaaaaaa'' = None \<and>
   files (load_index 10 sample_disk) ''bbbbbbbb'' = Some [105] \<and>
   index_file (load_index 10 sample_disk) = Some [(''bbbbbbbb'', sample_meta)] \<and>
   index_writes (load_index 10 sample_disk) = 1"
proof -
  let ?snapshot = "[(''aaaaaaaa'', sample_meta\<lparr>m_expires_at := Some 5\<rparr>), (''bbbbbbbb'', sample_meta)]"
  have snap: "index_file sample_disk = Some ?snapshot" by (simp add: sample_disk_def)
  have d: "distinct (map fst ?snapshot)" by simp
  have e: "expired_keys 10 ?snapshot = [''aaaaaaaa'']"
    by (simp add: expired_keys_def is_expired_def sample_meta_def)
  have f: "filter (\<lambda>(k, v). \<not> is_expired 10 v) ?snapshot = [(''bbbbbbbb'', sample_meta)]"
    by (simp add: is_expired_def sample_meta_def)
  from load_index_sweep [of sample_disk 10] snap d
  have "pastes (load_index 10 sample_disk) = filter (\<lambda>(k, v). \<not> is_expired 10 v) ?snapshot \<and>
      (\<forall>k. files (load_index 10 sample_disk) k
            = (if k \<in> set (expired_keys 10 ?snapshot) then None else files sample_disk k)) \<and>
      (expired_keys 10 ?snapshot \<noteq> [] \<longrightarrow>
         index_file (load_index 10 sample_disk) = Some (pastes (load_index 10 sample_disk)) \<and>
         index_writes (load_index 10 sample_disk) = Suc (index_writes sample_disk))"
    by blast
  with e f snap d show ?thesis by (simp add: sample_disk_def)
qed

section \<open>Index and content files agree\<close>




text \<open>The three ways a create can leave the state.\<close>

lemma create_paste_outcomes:
  assumes "create_paste cfg rnd now data s = Some (r, s')"
  shows "(r \<in> {Inl ContentTooLarge, Inl EmptyContent, Inl OverflowError} \<and> s' = s) \<or>
         (r = Inl UnicodeEncodeError \<and>
            (\<exists>paste_id meta. s' = s\<lparr>pastes := AList.update paste_id meta (pastes s),
                                   files := (files s)(paste_id \<mapsto> [])\<rparr>)) \<or>
         (\<exists>resp paste_id meta. r = Inr resp \<and>
            s' = s\<lparr>pastes := AList.update paste_id meta (pastes s),
                    files := (files s)(paste_id \<mapsto> content data),
                    index_file := Some (AList.update paste_id meta (pastes s)),
                    index_writes := Suc (index_writes s)\<rparr>)"
proof (cases r)
  case (Inr resp)
  with assms have "create_paste cfg rnd now data s = Some (Inr resp, s')" by simp
  then show ?thesis unfolding create_paste_Inr using Inr by blast
next
  case (Inl e)
  with assms show ?thesis
    by (auto simp: create_paste_def Let_def save_content_def index_put_def compute_expiry_def
        timedelta_hours_def datetime_add_def
        split: if_splits option.splits sum.splits)
qed











lemma sample_aborted_create:
  "create_paste default_config (\<lambda>_. 0) 0 (sample_request [55296] False) empty_state
     = Some (Inl UnicodeEncodeError,
             empty_state\<lparr>pastes := [(''aaaaaaaa'', new_meta 0 (Some 604800000000) (sample_request [55296] False))],
                          files := [''aaaaaaaa'' \<mapsto> []]\<rparr>)"
  by (simp add: create_paste_def sample_request_def PasteCreate_of_def default_config_def
      strip_def isspace_def empty_state_def generate_id_const0_empty compute_expiry_def
      DEFAULT_EXPIRY_HOURS_def timedelta_hours_def datetime_add_def datetime_max_def Let_def
      save_content_def encodable_def index_put_def)



section \<open>The order of the effects of a create\<close>

lemma snapshot_current_within: "snapshot_current s \<Longrightarrow> snapshot_within_index s"
  by (auto simp: snapshot_current_def snapshot_within_index_def split: option.splits)

lemma snapshot_within_create:
  assumes "snapshot_within_index s" and "create_paste cfg rnd now data s = Some (r, s')"
  shows "snapshot_within_index s'"
  using create_paste_outcomes [OF assms(2)] assms(1)
  by (auto simp: snapshot_within_index_def keys_update split: option.splits)

lemma create_paste_trace_Inr:
  assumes "create_paste cfg rnd now data s = Some (Inr resp, s')"
  shows "create_paste_trace cfg rnd now data s =
           Some [s,
                 index_put (r_id resp) (new_meta now (r_expires_at resp) data) s,
                 (index_put (r_id resp) (new_meta now (r_expires_at resp) data) s)
                   \<lparr>files := (files s)(r_id resp \<mapsto> content data)\<rparr>,
                 s']"
  using assms
  by (auto simp: create_paste_def create_paste_trace_def Let_def save_content_def response_def
      index_put_def split: if_splits option.splits sum.splits)

text \<open>
  Claim C4, amended. The claim says that the content is written before the index records
  the id. \<open>create_paste\<close> stores the record in \<open>pastes\<close> first, writes the content file
  second and the snapshot third: the state after its first effect has the id in the
  index and no content file (the counterexample below). What holds in a successful
  create, started where the snapshot lists only ids of the index (as it does in every
  state a process reaches, also after an aborted create): the content file is written
  before the snapshot on disk lists the id, so in no state the create passes through
  does the snapshot list the id without its content file.
\<close>

theorem create_order_of_effects:
  assumes made: "create_paste cfg rnd now data s = Some (Inr resp, s')"
    and within: "snapshot_within_index s"
  shows "\<exists>s1 s2. create_paste_trace cfg rnd now data s = Some [s, s1, s2, s'] \<and>
      r_id resp \<notin> keys (pastes s) \<and>
      r_id resp \<in> keys (pastes s1) \<and> files s1 = files s \<and> index_file s1 = index_file s \<and>
      pastes s2 = pastes s1 \<and> files s2 = (files s)(r_id resp \<mapsto> content data) \<and>
      index_file s2 = index_file s \<and>
      pastes s' = pastes s1 \<and> files s' = files s2 \<and> index_file s' = Some (pastes s') \<and>
      (\<forall>t \<in> set [s, s1, s2, s']. \<forall>snapshot.
          index_file t = Some snapshot \<and> r_id resp \<in> keys snapshot \<longrightarrow>
          files t (r_id resp) = Some (content data))"
proof -
  let ?s1 = "index_put (r_id resp) (new_meta now (r_expires_at resp) data) s"
  let ?s2 = "?s1\<lparr>files := (files s)(r_id resp \<mapsto> content data)\<rparr>"
  have tr: "create_paste_trace cfg rnd now data s = Some [s, ?s1, ?s2, s']"
    using made by (rule create_paste_trace_Inr)
  have new: "r_id resp \<notin> keys (pastes s)" using made by (rule create_paste_fresh_id)
  from made obtain paste_id expires_at where
    r: "resp = response cfg paste_id now expires_at data"
    and s': "s' = s\<lparr>pastes := AList.update paste_id (new_meta now expires_at data) (pastes s),
               files := (files s)(paste_id \<mapsto> content data),
               index_file := Some (AList.update paste_id (new_meta now expires_at data) (pastes s)),
               index_writes := Suc (index_writes s)\<rparr>"
    unfolding create_paste_Inr by blast
  from r have rid: "r_id resp = paste_id" "r_expires_at resp = expires_at"
    by (simp_all add: response_def)
  have s1: "r_id resp \<in> keys (pastes ?s1)" "files ?s1 = files s" "index_file ?s1 = index_file s"
    by (simp_all add: index_put_def keys_update)
  have s2: "pastes ?s2 = pastes ?s1" "files ?s2 = (files s)(r_id resp \<mapsto> content data)"
    "index_file ?s2 = index_file s"
    by (simp_all add: index_put_def)
  have s3: "pastes s' = pastes ?s1" "files s' = files ?s2" "index_file s' = Some (pastes s')"
    by (simp_all add: s' rid index_put_def)
  have old: "r_id resp \<notin> keys snapshot" if "index_file s = Some snapshot" for snapshot
    using that within new by (auto simp: snapshot_within_index_def)
  have safe: "\<forall>t \<in> set [s, ?s1, ?s2, s']. \<forall>snapshot.
          index_file t = Some snapshot \<and> r_id resp \<in> keys snapshot \<longrightarrow>
          files t (r_id resp) = Some (content data)"
    using old s1(3) s2(2,3) s3(2) by auto
  from tr new s1 s2 s3 safe show ?thesis by blast
qed

lemma sample_trace:
  "create_paste_trace default_config (\<lambda>_. 0) 0 (sample_request [104, 105] False) empty_state
     = Some [empty_state,
             index_put ''aaaaaaaa'' (new_meta 0 (Some 604800000000) (sample_request [104, 105] False)) empty_state,
             (index_put ''aaaaaaaa'' (new_meta 0 (Some 604800000000) (sample_request [104, 105] False)) empty_state)
               \<lparr>files := [''aaaaaaaa'' \<mapsto> [104, 105]]\<rparr>,
             save_index ((index_put ''aaaaaaaa'' (new_meta 0 (Some 604800000000) (sample_request [104, 105] False)) empty_state)
               \<lparr>files := [''aaaaaaaa'' \<mapsto> [104, 105]]\<rparr>)]"
  by (simp add: create_paste_trace_def sample_request_def PasteCreate_of_def default_config_def
      strip_def isspace_def empty_state_def generate_id_const0_empty compute_expiry_def
      DEFAULT_EXPIRY_HOURS_def timedelta_hours_def datetime_add_def datetime_max_def Let_def
      save_content_def encodable_def index_put_def)

theorem create_order_of_effects_witness:
  "snapshot_within_index empty_state \<and>
   (\<exists>resp s' s1 s2.
      create_paste default_config (\<lambda>_. 0) 0 (sample_request [104, 105] False) empty_state
        = Some (Inr resp, s') \<and>
      create_paste_trace default_config (\<lambda>_. 0) 0 (sample_request [104, 105] False) empty_state
        = Some [empty_state, s1, s2, s'] \<and>
      files s2 (r_id resp) = Some [104, 105] \<and> index_file s2 = None \<and>
      index_file s' = Some (pastes s') \<and> r_id resp \<in> keys (pastes s'))"
proof -
  let ?d = "sample_request [104, 105] False"
  obtain resp s' where
    c: "create_paste default_config (\<lambda>_. 0) 0 ?d empty_state = Some (Inr resp, s')"
    using sample_create_succeeds [of "[104, 105]" False]
    by (auto simp: isspace_def encodable_def)
  have e: "snapshot_within_index empty_state"
    by (simp add: snapshot_within_index_def empty_state_def)
  have d: "content ?d = [104, 105]" by (simp add: sample_request_def PasteCreate_of_def)
  from create_order_of_effects [OF c e] obtain s1 s2 where
    "create_paste_trace default_config (\<lambda>_. 0) 0 ?d empty_state = Some [empty_state, s1, s2, s']"
    "r_id resp \<in> keys (pastes s1)" "pastes s' = pastes s1"
    "files s2 = (files empty_state)(r_id resp \<mapsto> content ?d)"
    "index_file s2 = index_file empty_state" "index_file s' = Some (pastes s')"
    by blast
  with d have "create_paste_trace default_config (\<lambda>_. 0) 0 ?d empty_state
        = Some [empty_state, s1, s2, s'] \<and>
      files s2 (r_id resp) = Some [104, 105] \<and> index_file s2 = None \<and>
      index_file s' = Some (pastes s') \<and> r_id resp \<in> keys (pastes s')"
    by (simp add: empty_state_def)
  with c e show ?thesis by blast
qed

theorem create_order_of_effects_counterexample:
  "(case create_paste_trace default_config (\<lambda>_. 0) 0 (sample_request [104, 105] False) empty_state of
      Some [s, s1, s2, s'] \<Rightarrow>
        ''aaaaaaaa'' \<in> keys (pastes s1) \<and> files s1 ''aaaaaaaa'' = None \<and>
        ''aaaaaaaa'' \<in> keys (pastes s') \<and> files s' ''aaaaaaaa'' = Some [104, 105]
    | _ \<Rightarrow> False)"
  unfolding sample_trace
  by (simp add: index_put_def keys_def empty_state_def save_index_def)

text \<open>
  When the content cannot be encoded, \<open>write_text\<close> raises after the record is in
  \<open>pastes\<close> and the file has been opened: the record stays with an empty content file,
  the snapshot is not written, and a read of the id returns the empty content.
\<close>

lemma failed_write_leaves_record:
  "\<exists>s'. create_paste default_config (\<lambda>_. 0) 0 (sample_request [55296] False) empty_state
           = Some (Inl UnicodeEncodeError, s') \<and>
        ''aaaaaaaa'' \<in> keys (pastes s') \<and> files s' ''aaaaaaaa'' = Some [] \<and>
        index_file s' = None \<and>
        get_paste_raw ''aaaaaaaa'' s' = (Inr [], s')"
  unfolding sample_aborted_create
  by (simp add: keys_def empty_state_def get_paste_raw_def load_content_def burn_def
      new_meta_def sample_request_def PasteCreate_of_def)

end
